theory Spec2Isabelle
  imports Complex_Main
begin

section \<open>Player controller of the dungeon shooter (src/src/player.js)\<close>

text \<open>
  A shallow embedding of \<^verbatim>\<open>updatePlayer\<close>, \<^verbatim>\<open>handleTileInteraction\<close>,
  \<^verbatim>\<open>applyPowerUp\<close> and \<^verbatim>\<open>updateShieldAndCollisions\<close>. The mutable Phaser scene
  is an explicit record that every function takes and returns; a JavaScript
  \<^verbatim>\<open>TypeError\<close> (reading a property of \<^verbatim>\<open>undefined\<close>) is a value that carries the
  scene as mutated up to the throw.
\<close>

subsection \<open>Constants (lines 2-9)\<close>

definition MOVEMENT_COOLDOWN :: real where "MOVEMENT_COOLDOWN = 200"
definition NORMAL_SPEED :: real where "NORMAL_SPEED = 100"
definition BOOSTED_SPEED :: real where "BOOSTED_SPEED = 150"
definition WATER_MOVEMENT_DURATION :: int where "WATER_MOVEMENT_DURATION = 200"
definition NORMAL_MOVEMENT_DURATION :: int where "NORMAL_MOVEMENT_DURATION = 100"
definition GRID_WIDTH :: int where "GRID_WIDTH = 20"
definition GRID_HEIGHT :: int where "GRID_HEIGHT = 12"
definition TILE_SIZE :: int where "TILE_SIZE = 48"

subsection \<open>Data\<close>

text \<open>
  A JavaScript array is read and written by index: reading an index that holds no
  element yields \<^verbatim>\<open>undefined\<close> (here \<open>None\<close>) and never throws by itself, and
  writing \<^verbatim>\<open>a[i] = v\<close> stores the element whatever \<open>i\<close> is. Both are the
  behaviour of a partial map from index to element, which is how arrays are modelled.
\<close>

type_synonym 'a js_array = "int \<Rightarrow> 'a option"

text \<open>The dungeon grid is row-major: \<^verbatim>\<open>dungeonGrid[y][x]\<close> is a tile code.\<close>

type_synonym grid = "int js_array js_array"

text \<open>The room whose cell \<open>(x, y)\<close> holds \<open>f x y\<close>, of the reference size 20 by 12.\<close>

definition roomOf :: "(int \<Rightarrow> int \<Rightarrow> int) \<Rightarrow> grid" where
  "roomOf f = (\<lambda>y. if 0 \<le> y \<and> y < GRID_HEIGHT
                    then Some (\<lambda>x. if 0 \<le> x \<and> x < GRID_WIDTH then Some (f x y) else None)
                    else None)"

text \<open>
  A cell of the textual overlay \<^verbatim>\<open>scene.dungeonTexts\<close>: the glyph shown and
  its colour, as set by \<^verbatim>\<open>setText\<close> and \<^verbatim>\<open>setFill\<close>.
\<close>

record textObj =
  glyph :: string
  fill :: string

text \<open>A power-up pickup; the core reads only its grid cell.\<close>

record powerUpSprite =
  spriteGridX :: int
  spriteGridY :: int

text \<open>
  An enemy of the group \<^verbatim>\<open>scene.enemies\<close>. \<open>eid\<close> stands for the identity of
  the game object, \<open>touching\<close> for what \<^verbatim>\<open>scene.physics.overlap(player, enemy)\<close>
  (the physics engine, outside this file) answers for it in the current frame.
\<close>

record enemy =
  eid :: nat
  active :: bool
  touching :: bool

text \<open>
  A tween handed to \<^verbatim>\<open>scene.tweens.add\<close> (lines 122-135): the world target, the
  duration, and the cell \<^verbatim>\<open>(newGridX, newGridY)\<close> captured by its
  \<^verbatim>\<open>onComplete\<close> closure.
\<close>

record tween =
  targetX :: int
  targetY :: int
  duration :: int
  destX :: int
  destY :: int

text \<open>
  The scene, flattened: the fields of \<^verbatim>\<open>scene.cursors\<close>, \<^verbatim>\<open>scene.xbiteKey\<close>,
  \<^verbatim>\<open>scene.gameState\<close>, \<^verbatim>\<open>scene.player\<close> and of the scene itself that the file
  reads or writes. \<open>lastMoveTime = None\<close> is \<^verbatim>\<open>undefined\<close>; \<open>dungeonGrid = None\<close>
  is an absent grid; \<open>shieldSprite\<close> and \<open>key\<close> are \<open>None\<close> when \<^verbatim>\<open>null\<close>.
  \<open>key = Some b\<close> is a key pickup for which \<^verbatim>\<open>scene.physics.overlap(player, scene.key)\<close>
  answers \<open>b\<close>. \<open>tweens\<close> lists the tweens added so far, \<open>feedback\<close> the texts emitted
  with \<^verbatim>\<open>scene.add.text\<close>, \<open>console\<close> the lines of \<^verbatim>\<open>console.error\<close>.
  Times and world coordinates are real numbers, tile codes and counters integers.
\<close>

record scene =
  leftIsDown :: bool
  rightIsDown :: bool
  upIsDown :: bool
  downIsDown :: bool
  xbiteJustDown :: bool
  lastMoveTime :: "real option"
  playerHealth :: int
  score :: int
  shieldHP :: int
  tripleShotTimer :: int
  speedBoostTimer :: int
  slowShotTimer :: int
  chargeLevel :: int
  hasKey :: bool
  gridX :: int
  gridY :: int
  playerX :: real
  playerY :: real
  velocity :: "real \<times> real"
  shieldAngle :: real
  dungeonGrid :: "grid option"
  dungeonTexts :: "textObj js_array"
  powerUpSprites :: "powerUpSprite list"
  shieldSprite :: "(real \<times> real) option"
  enemies :: "enemy list"
  enemyProjectiles :: "nat list"
  key :: "bool option"
  tweens :: "tween list"
  physicsPaused :: bool
  gameOver :: bool
  feedback :: "string list"
  console :: "string list"

datatype error = TypeError

text \<open>
  The outcome of a call: \<open>Inr s\<close> when it returns with scene \<open>s\<close>, \<open>Inl (e, s)\<close> when
  it throws \<open>e\<close>, the scene being \<open>s\<close> at that point (mutations made before a throw
  stay). \<open>stateOf\<close> is the scene after the call either way.
\<close>

type_synonym outcome = "(error \<times> scene) + scene"

definition stateOf :: "outcome \<Rightarrow> scene" where
  "stateOf r = (case r of Inl (e, s) \<Rightarrow> s | Inr s \<Rightarrow> s)"

subsection \<open>Phaser operations used by the file\<close>

text \<open>
  Modelled from the spec: the engine calls below belong to the Phaser library, which
  is not under src/. \<^verbatim>\<open>scene.add.text(..)\<close> emits a fire-and-forget feedback
  text; \<^verbatim>\<open>velocityFromRotation(rotation, speed, v)\<close> sets \<open>v\<close> to the vector of
  that direction and length; \<^verbatim>\<open>JustDown(key)\<close> answers true once per discrete
  press, consuming the edge.
\<close>

definition addText :: "string \<Rightarrow> scene \<Rightarrow> scene" where
  "addText msg s = s\<lparr>feedback := feedback s @ [msg]\<rparr>"

definition velocityFromRotation :: "real \<Rightarrow> real \<Rightarrow> real \<times> real" where
  "velocityFromRotation rotation speed = (cos rotation * speed, sin rotation * speed)"

definition JustDown :: "scene \<Rightarrow> bool \<times> scene" where
  "JustDown s = (if xbiteJustDown s then (True, s\<lparr>xbiteJustDown := False\<rparr>) else (False, s))"

subsection \<open>The passability predicate (lines 74-78)\<close>

text \<open>
  \<^verbatim>\<open>[1, 2, 7, 13, 14].includes(tile)\<close>; an \<^verbatim>\<open>undefined\<close> tile is not included.
\<close>

definition isCollidable :: "int option \<Rightarrow> bool" where
  "isCollidable tile = (case tile of None \<Rightarrow> False | Some t \<Rightarrow> t \<in> set [1, 2, 7, 13, 14])"

text \<open>
  The tile is read before the bounds are tested: \<^verbatim>\<open>scene.dungeonGrid[newY]\<close> is
  \<^verbatim>\<open>undefined\<close> when the grid has no row \<open>newY\<close>, and indexing it throws.
\<close>

definition canMove :: "grid \<Rightarrow> int \<Rightarrow> int \<Rightarrow> error + bool" where
  "canMove g newX newY =
     (case g newY of
        None \<Rightarrow> Inl TypeError
      | Some row \<Rightarrow>
          (let tile = row newX
           in Inr (\<not> isCollidable tile \<and> 0 \<le> newX \<and> newX < GRID_WIDTH
                   \<and> 0 \<le> newY \<and> newY < GRID_HEIGHT)))"

subsection \<open>Power-up effects (lines 188-221)\<close>

text \<open>
  \<^verbatim>\<open>dungeonGrid[y][x] = 0\<close>, then the overlay glyph, then the removal of the first
  pickup at the cell (\<^verbatim>\<open>find\<close>, then \<^verbatim>\<open>filter(s => s !== sprite)\<close>), then the
  \<^verbatim>\<open>switch\<close>, which has no default.
\<close>

definition clearCell :: "scene \<Rightarrow> grid \<Rightarrow> int js_array \<Rightarrow> int \<Rightarrow> int \<Rightarrow> scene" where
  "clearCell s g row x y = s\<lparr>dungeonGrid := Some (g(y \<mapsto> row(x \<mapsto> 0)))\<rparr>"

definition setGlyph :: "scene \<Rightarrow> int \<Rightarrow> int \<Rightarrow> outcome" where
  "setGlyph s x y =
     (case dungeonTexts s (y * GRID_WIDTH + x) of
        None \<Rightarrow> Inl (TypeError, s)
      | Some t \<Rightarrow>
          Inr (s\<lparr>dungeonTexts :=
                    (dungeonTexts s)(y * GRID_WIDTH + x \<mapsto> t\<lparr>glyph := ''.'', fill := ''#666''\<rparr>)\<rparr>))"

definition removePickup :: "scene \<Rightarrow> int \<Rightarrow> int \<Rightarrow> scene" where
  "removePickup s x y =
     (case find (\<lambda>sp. spriteGridX sp = x \<and> spriteGridY sp = y) (powerUpSprites s) of
        None \<Rightarrow> s
      | Some sprite \<Rightarrow> s\<lparr>powerUpSprites := remove1 sprite (powerUpSprites s)\<rparr>)"

definition powerUpEffect :: "int \<Rightarrow> scene \<Rightarrow> scene" where
  "powerUpEffect tile s =
     (if tile = 19 then
        (let s1 = s\<lparr>shieldHP := 3\<rparr>
         in if shieldSprite s1 = None
            then s1\<lparr>shieldSprite := Some (playerX s1, playerY s1)\<rparr> else s1)
      else if tile = 20 then s\<lparr>tripleShotTimer := 30000\<rparr>
      else if tile = 21 then s\<lparr>speedBoostTimer := 30000\<rparr>
      else if tile = 22 then s\<lparr>slowShotTimer := 30000\<rparr>
      else if tile = 23 then
        addText ''+25 HP!'' (s\<lparr>playerHealth := min (playerHealth s + 25) 100\<rparr>)
      else s)"

definition applyPowerUp :: "scene \<Rightarrow> int \<Rightarrow> int \<Rightarrow> int \<Rightarrow> outcome" where
  "applyPowerUp s tile x y =
     (case dungeonGrid s of
        None \<Rightarrow> Inl (TypeError, s)
      | Some g \<Rightarrow>
          (case g y of
             None \<Rightarrow> Inl (TypeError, s)
           | Some row \<Rightarrow>
               (case setGlyph (clearCell s g row x y) x y of
                  Inl err \<Rightarrow> Inl err
                | Inr s2 \<Rightarrow> Inr (powerUpEffect tile (removePickup s2 x y)))))"

subsection \<open>Tile interaction (lines 158-179)\<close>

definition endGame :: "scene \<Rightarrow> scene" where
  "endGame s = (if playerHealth s \<le> 0 then s\<lparr>physicsPaused := True, gameOver := True\<rparr> else s)"

definition isPowerUp :: "int option \<Rightarrow> bool" where
  "isPowerUp tile = (case tile of None \<Rightarrow> False | Some t \<Rightarrow> 19 \<le> t \<and> t \<le> 23)"

definition handleTileInteraction :: "scene \<Rightarrow> int \<Rightarrow> int \<Rightarrow> outcome" where
  "handleTileInteraction s x y =
     (case dungeonGrid s of
        None \<Rightarrow> Inl (TypeError, s)
      | Some g \<Rightarrow>
          (case g y of
             None \<Rightarrow> Inl (TypeError, s)
           | Some row \<Rightarrow>
               (let tile = row x
                in if tile = Some 5 \<or> tile = Some 8 then
                     Inr (endGame (addText ''-20 HP!'' (s\<lparr>playerHealth := playerHealth s - 20\<rparr>)))
                   else if tile = Some 6 then
                     (case setGlyph (clearCell (s\<lparr>score := score s + 50\<rparr>) g row x y) x y of
                        Inl err \<Rightarrow> Inl err
                      | Inr s2 \<Rightarrow> Inr (addText ''+50 Score!'' s2))
                   else if isPowerUp tile then
                     (case tile of None \<Rightarrow> Inr s | Some t \<Rightarrow> applyPowerUp s t x y)
                   else Inr s)))"

subsection \<open>Shield and collisions (lines 228-272)\<close>

text \<open>Lines 231-243: the orbiting shield sprite, radius 30, angular rate 0.005.\<close>

definition shieldVisual :: "scene \<Rightarrow> real \<Rightarrow> scene" where
  "shieldVisual s delta =
     (if shieldHP s > 0 then
        (let s1 = (if shieldSprite s = None
                   then s\<lparr>shieldSprite := Some (playerX s, playerY s)\<rparr> else s);
             angle = shieldAngle s1 + 0.005 * delta
         in s1\<lparr>shieldAngle := angle,
                shieldSprite := Some (playerX s1 + cos angle * 30, playerY s1 + sin angle * 30)\<rparr>)
      else if shieldSprite s \<noteq> None then s\<lparr>shieldSprite := None\<rparr>
      else s)"

text \<open>\<^verbatim>\<open>enemy.destroy()\<close> takes the game object out of its group.\<close>

definition destroyEnemy :: "enemy \<Rightarrow> scene \<Rightarrow> scene" where
  "destroyEnemy e s = s\<lparr>enemies := filter (\<lambda>e'. eid e' \<noteq> eid e) (enemies s)\<rparr>"

text \<open>Lines 246-262: the callback run for one enemy.\<close>

definition onEnemy :: "enemy \<Rightarrow> scene \<Rightarrow> scene" where
  "onEnemy e s =
     (if active e \<and> touching e then
        (if shieldHP s > 0 then
           (let s1 = destroyEnemy e (s\<lparr>shieldHP := shieldHP s - 1\<rparr>)
            in if shieldHP s1 = 0 \<and> shieldSprite s1 \<noteq> None
               then s1\<lparr>shieldSprite := None\<rparr> else s1)
         else endGame ((destroyEnemy e s)\<lparr>playerHealth := playerHealth s - 10\<rparr>))
      else s)"

text \<open>
  \<^verbatim>\<open>scene.enemies.children.each\<close> visits, in order, the members the group had
  when the loop started.
\<close>

fun enemiesEach :: "enemy list \<Rightarrow> scene \<Rightarrow> scene" where
  "enemiesEach [] s = s"
| "enemiesEach (e # es) s = enemiesEach es (onEnemy e s)"

text \<open>Lines 265-271: the ability gate.\<close>

definition abilityGate :: "scene \<Rightarrow> scene" where
  "abilityGate s =
     (case JustDown s of
        (pressed, s1) \<Rightarrow>
          if pressed \<and> chargeLevel s1 \<ge> 1000
          then addText ''XBITE NUKE!'' (s1\<lparr>enemies := [], enemyProjectiles := [], chargeLevel := 0\<rparr>)
          else s1)"

text \<open>Lines 231-263: the shield sprite, then the loop over the enemies.\<close>

definition resolveCollisions :: "scene \<Rightarrow> real \<Rightarrow> scene" where
  "resolveCollisions s delta =
     (let s1 = shieldVisual s delta in enemiesEach (enemies s1) s1)"

definition updateShieldAndCollisions :: "scene \<Rightarrow> real \<Rightarrow> scene" where
  "updateShieldAndCollisions s delta = abilityGate (resolveCollisions s delta)"

subsection \<open>The per-frame update (lines 63-150)\<close>

text \<open>
  The locals \<^verbatim>\<open>moved\<close>, \<^verbatim>\<open>newGridX\<close>, \<^verbatim>\<open>newGridY\<close> travel with the scene
  through the two movement phases.
\<close>

type_synonym locals = "bool \<times> int \<times> int"

text \<open>Lines 86-99: the wind gust of the current tile.\<close>

definition windGust :: "grid \<Rightarrow> scene \<Rightarrow> (error \<times> scene) + (scene \<times> locals)" where
  "windGust g s =
     (case g (gridY s) of
        None \<Rightarrow> Inl (TypeError, s)
      | Some row \<Rightarrow>
          (let currentTile = row (gridX s)
           in if currentTile = Some 9 then
                (case canMove g (gridX s + 1) (gridY s) of
                   Inl e \<Rightarrow> Inl (e, s)
                 | Inr ok \<Rightarrow>
                     if ok then Inr (s\<lparr>velocity := velocityFromRotation 0 50\<rparr>,
                                     True, gridX s + 1, gridY s)
                     else Inr (s, False, gridX s, gridY s))
              else if currentTile = Some 10 then
                (case canMove g (gridX s - 1) (gridY s) of
                   Inl e \<Rightarrow> Inl (e, s)
                 | Inr ok \<Rightarrow>
                     if ok then Inr (s\<lparr>velocity := velocityFromRotation pi 50\<rparr>,
                                     True, gridX s - 1, gridY s)
                     else Inr (s, False, gridX s, gridY s))
              else Inr (s, False, gridX s, gridY s)))"

text \<open>
  \<^verbatim>\<open>isDown && canMove(x, y)\<close>: the right operand is evaluated, and can throw,
  only when the key is down.
\<close>

definition downAndCanMove :: "bool \<Rightarrow> grid \<Rightarrow> int \<Rightarrow> int \<Rightarrow> error + bool" where
  "downAndCanMove isDown g x y = (if isDown then canMove g x y else Inr False)"

text \<open>
  Lines 101-118: the directional input, first satisfied of left, right, up, down.
  Each test is made on the cell next to the player's current cell, while the step is
  applied to \<^verbatim>\<open>newGridX\<close>/\<^verbatim>\<open>newGridY\<close> as the wind phase left them.
\<close>

definition cursorMove :: "grid \<Rightarrow> scene \<Rightarrow> locals \<Rightarrow> (error \<times> scene) + (scene \<times> locals)" where
  "cursorMove g s l =
     (case l of (moved, newGridX, newGridY) \<Rightarrow>
      let speed = (if speedBoostTimer s > 0 then BOOSTED_SPEED else NORMAL_SPEED)
      in case downAndCanMove (leftIsDown s) g (gridX s - 1) (gridY s) of
           Inl e \<Rightarrow> Inl (e, s)
         | Inr goLeft \<Rightarrow>
             if goLeft then Inr (s\<lparr>velocity := velocityFromRotation pi speed\<rparr>,
                                 True, newGridX - 1, newGridY)
             else
        (case downAndCanMove (rightIsDown s) g (gridX s + 1) (gridY s) of
           Inl e \<Rightarrow> Inl (e, s)
         | Inr goRight \<Rightarrow>
             if goRight then Inr (s\<lparr>velocity := velocityFromRotation 0 speed\<rparr>,
                                  True, newGridX + 1, newGridY)
             else
        (case downAndCanMove (upIsDown s) g (gridX s) (gridY s - 1) of
           Inl e \<Rightarrow> Inl (e, s)
         | Inr goUp \<Rightarrow>
             if goUp then Inr (s\<lparr>velocity := velocityFromRotation (- pi / 2) speed\<rparr>,
                               True, newGridX, newGridY - 1)
             else
        (case downAndCanMove (downIsDown s) g (gridX s) (gridY s + 1) of
           Inl e \<Rightarrow> Inl (e, s)
         | Inr goDown \<Rightarrow>
             if goDown then Inr (s\<lparr>velocity := velocityFromRotation (pi / 2) speed\<rparr>,
                                 True, newGridX, newGridY + 1)
             else Inr (s, moved, newGridX, newGridY)))))"

text \<open>
  Lines 120-137: when \<^verbatim>\<open>moved\<close>, read the destination tile for the duration, add
  the tween and record \<^verbatim>\<open>lastMoveTime\<close>.
\<close>

definition startTween :: "grid \<Rightarrow> scene \<Rightarrow> locals \<Rightarrow> real \<Rightarrow> outcome" where
  "startTween g s l time =
     (case l of (moved, newGridX, newGridY) \<Rightarrow>
      if moved then
        (case g newGridY of
           None \<Rightarrow> Inl (TypeError, s)
         | Some row \<Rightarrow>
             (let duration = (if row newGridX = Some 12 then WATER_MOVEMENT_DURATION
                              else NORMAL_MOVEMENT_DURATION)
              in Inr (s\<lparr>tweens := tweens s @
                           [\<lparr>targetX = newGridX * TILE_SIZE, targetY = newGridY * TILE_SIZE,
                             duration = duration, destX = newGridX, destY = newGridY\<rparr>],
                         lastMoveTime := Some time\<rparr>)))
      else Inr s)"

text \<open>Lines 139-146: the key pickup.\<close>

definition keyPickup :: "scene \<Rightarrow> scene" where
  "keyPickup s =
     (if key s = Some True then addText ''KEY GET!'' (s\<lparr>hasKey := True, key := None\<rparr>) else s)"

text \<open>Lines 80-137: the movement controller, once past the cooldown and grid checks.\<close>

definition gridMovement :: "grid \<Rightarrow> scene \<Rightarrow> real \<Rightarrow> outcome" where
  "gridMovement g s time =
     (case windGust g (s\<lparr>velocity := (0, 0)\<rparr>) of
        Inl err \<Rightarrow> Inl err
      | Inr (s1, l1) \<Rightarrow>
          (case cursorMove g s1 l1 of
             Inl err \<Rightarrow> Inl err
           | Inr (s2, l2) \<Rightarrow> startTween g s2 l2 time))"

text \<open>
  Line 66 gives \<^verbatim>\<open>lastMoveTime\<close> the value 0 when it is \<^verbatim>\<open>undefined\<close>; line 67
  returns while the cooldown runs, and lines 69-72 when the grid is absent, both before
  the key pickup and \<^verbatim>\<open>updateShieldAndCollisions\<close> of lines 139-149.
\<close>

definition initLastMoveTime :: "scene \<Rightarrow> scene" where
  "initLastMoveTime s = (if lastMoveTime s = None then s\<lparr>lastMoveTime := Some 0\<rparr> else s)"

definition sinceLastMove :: "scene \<Rightarrow> real \<Rightarrow> real" where
  "sinceLastMove s time = time - (case lastMoveTime s of None \<Rightarrow> 0 | Some t \<Rightarrow> t)"

definition updatePlayer :: "scene \<Rightarrow> real \<Rightarrow> real \<Rightarrow> outcome" where
  "updatePlayer s time delta =
     (let s0 = initLastMoveTime s
      in if sinceLastMove s0 time < MOVEMENT_COOLDOWN then Inr s0
         else
           (case dungeonGrid s0 of
              None \<Rightarrow> Inr (s0\<lparr>console := console s0 @ [''dungeonGrid is undefined in updatePlayer'']\<rparr>)
            | Some g \<Rightarrow>
                (case gridMovement g s0 time of
                   Inl err \<Rightarrow> Inl err
                 | Inr s3 \<Rightarrow> Inr (updateShieldAndCollisions (keyPickup s3) delta))))"

text \<open>
  Lines 128-134: the tween's \<^verbatim>\<open>onComplete\<close>, called by the tween engine when the
  interpolation ends: commit the cell, snap the world position, interact with the tile.
\<close>

definition onComplete :: "scene \<Rightarrow> tween \<Rightarrow> outcome" where
  "onComplete s tw =
     (let s1 = s\<lparr>gridX := destX tw, gridY := destY tw\<rparr>;
          s2 = s1\<lparr>playerX := real_of_int (gridX s1 * TILE_SIZE),
                  playerY := real_of_int (gridY s1 * TILE_SIZE)\<rparr>
      in handleTileInteraction s2 (gridX s2) (gridY s2))"

subsection \<open>Observations used in the statements\<close>

text \<open>The tile code at a cell of the scene's grid, \<open>None\<close> where there is none.\<close>

definition tileAt :: "scene \<Rightarrow> int \<Rightarrow> int \<Rightarrow> int option" where
  "tileAt s x y =
     (case dungeonGrid s of
        None \<Rightarrow> None
      | Some g \<Rightarrow> (case g y of None \<Rightarrow> None | Some row \<Rightarrow> row x))"



text \<open>The grid is there and has a row \<open>y\<close>.\<close>

definition rowPresent :: "scene \<Rightarrow> int \<Rightarrow> bool" where
  "rowPresent s y = (case dungeonGrid s of None \<Rightarrow> False | Some g \<Rightarrow> g y \<noteq> None)"

text \<open>
  The grid has row \<open>y\<close> and the overlay has a text for cell \<open>(x, y)\<close>: the two
  reads of \<^verbatim>\<open>applyPowerUp\<close> that can throw do not.
\<close>

definition cellPresent :: "scene \<Rightarrow> int \<Rightarrow> int \<Rightarrow> bool" where
  "cellPresent s x y = (rowPresent s y \<and> dungeonTexts s (y * GRID_WIDTH + x) \<noteq> None)"

subsection \<open>Concrete scenes\<close>

text \<open>An all-floor room, its overlay, and a scene at rest in the middle of it.\<close>

definition floorRoom :: grid where
  "floorRoom = roomOf (\<lambda>x y. 0)"

definition floorTexts :: "textObj js_array" where
  "floorTexts = (\<lambda>i. if 0 \<le> i \<and> i < GRID_WIDTH * GRID_HEIGHT
                      then Some \<lparr>glyph = ''.'', fill = ''#666''\<rparr> else None)"

definition restScene :: scene where
  "restScene =
     \<lparr>leftIsDown = False, rightIsDown = False, upIsDown = False, downIsDown = False,
      xbiteJustDown = False, lastMoveTime = Some 0, playerHealth = 100, score = 0,
      shieldHP = 0, tripleShotTimer = 0, speedBoostTimer = 0, slowShotTimer = 0,
      chargeLevel = 0, hasKey = False, gridX = 10, gridY = 6, playerX = 480, playerY = 288,
      velocity = (0, 0), shieldAngle = 0, dungeonGrid = Some floorRoom,
      dungeonTexts = floorTexts, powerUpSprites = [], shieldSprite = None, enemies = [],
      enemyProjectiles = [], key = None, tweens = [], physicsPaused = False,
      gameOver = False, feedback = [], console = []\<rparr>"

text \<open>The same scene with the right arrow held: a move to \<open>(11, 6)\<close> is available.\<close>

definition rightHeldScene :: scene where
  "rightHeldScene = restScene\<lparr>rightIsDown := True\<rparr>"

text \<open>
  A wind gust to the right under the player at \<open>(5, 5)\<close>, floor at \<open>(6, 5)\<close>, a wall
  at \<open>(7, 5)\<close>, the right arrow held.
\<close>

definition windRoom :: grid where
  "windRoom = roomOf (\<lambda>x y. if x = 5 \<and> y = 5 then 9 else if x = 7 \<and> y = 5 then 1 else 0)"

definition windScene :: scene where
  "windScene = restScene\<lparr>gridX := 5, gridY := 5, playerX := 240, playerY := 240,
     dungeonGrid := Some windRoom, rightIsDown := True\<rparr>"

text \<open>The same gust in an otherwise empty room, the up arrow held.\<close>

definition gustRoom :: grid where
  "gustRoom = roomOf (\<lambda>x y. if x = 5 \<and> y = 5 then 9 else 0)"

definition gustUpScene :: scene where
  "gustUpScene = restScene\<lparr>gridX := 5, gridY := 5, playerX := 240, playerY := 240,
     dungeonGrid := Some gustRoom, upIsDown := True\<rparr>"


text \<open>
  The spec's scenario: the player at \<open>(10, 6)\<close> with health 15, a spike at
  \<open>(11, 6)\<close>, and the tween of the move to the right.
\<close>

definition hazardRoom :: grid where
  "hazardRoom = roomOf (\<lambda>x y. if x = 11 \<and> y = 6 then 5 else 0)"

definition hazardScene :: scene where
  "hazardScene = restScene\<lparr>dungeonGrid := Some hazardRoom, playerHealth := 15\<rparr>"

definition toHazard :: tween where
  "toHazard = \<lparr>targetX = 528, targetY = 288, duration = 100, destX = 11, destY = 6\<rparr>"

text \<open>A scene already over, in the same room, with an enemy on the player.\<close>

definition defeatedScene :: scene where
  "defeatedScene = restScene\<lparr>dungeonGrid := Some hazardRoom, playerHealth := 0,
     gameOver := True, physicsPaused := True,
     enemies := [\<lparr>eid = 1, active = True, touching = True\<rparr>]\<rparr>"

text \<open>
  Health 10 next to the spike, the right arrow held and an enemy on the player: the
  move to the spike starts in the frame in which the enemy takes the last health.
\<close>

definition lastStandScene :: scene where
  "lastStandScene = hazardScene\<lparr>playerHealth := 10, rightIsDown := True,
     enemies := [\<lparr>eid = 1, active = True, touching = True\<rparr>]\<rparr>"

text \<open>The spec's heal scenario: health 90 and a heal pickup at \<open>(11, 6)\<close>.\<close>

definition healRoom :: grid where
  "healRoom = roomOf (\<lambda>x y. if x = 11 \<and> y = 6 then 23 else 0)"

definition healScene :: scene where
  "healScene = restScene\<lparr>dungeonGrid := Some healRoom, playerHealth := 90,
     powerUpSprites := [\<lparr>spriteGridX = 11, spriteGridY = 6\<rparr>]\<rparr>"



text \<open>A full charge, the ability key just pressed, an enemy and two projectiles.\<close>

definition chargedScene :: scene where
  "chargedScene = restScene\<lparr>xbiteJustDown := True, chargeLevel := 1000,
     enemies := [\<lparr>eid = 1, active = True, touching = False\<rparr>],
     enemyProjectiles := [7, 8]\<rparr>"

section \<open>Properties\<close>

text \<open>The definitions unfolded to evaluate a concrete frame.\<close>

lemmas room_defs = roomOf_def floorRoom_def floorTexts_def GRID_WIDTH_def GRID_HEIGHT_def
  TILE_SIZE_def MOVEMENT_COOLDOWN_def NORMAL_MOVEMENT_DURATION_def WATER_MOVEMENT_DURATION_def

lemmas update_defs = updatePlayer_def initLastMoveTime_def sinceLastMove_def gridMovement_def
  windGust_def cursorMove_def downAndCanMove_def startTween_def canMove_def isCollidable_def
  keyPickup_def updateShieldAndCollisions_def resolveCollisions_def shieldVisual_def
  onEnemy_def destroyEnemy_def endGame_def abilityGate_def JustDown_def addText_def stateOf_def

lemmas tile_defs = onComplete_def handleTileInteraction_def applyPowerUp_def setGlyph_def
  clearCell_def removePickup_def powerUpEffect_def isPowerUp_def endGame_def addText_def stateOf_def

subsection \<open>Passability\<close>

text \<open>
  Where the row exists, \<open>canMove\<close> returns without throwing, and its value is false
  exactly for the five collidable codes and the cells outside 20 by 12.
\<close>

lemma canMove_row_present:
  "g y = Some row \<Longrightarrow>
   canMove g x y = Inr (\<not> (\<exists>t. row x = Some t \<and> t \<in> {1, 2, 7, 13, 14})
                         \<and> 0 \<le> x \<and> x < 20 \<and> 0 \<le> y \<and> y < 12)"
  by (auto simp: canMove_def isCollidable_def GRID_WIDTH_def GRID_HEIGHT_def
           split: option.splits)

lemma canMove_row_absent: "g y = None \<Longrightarrow> canMove g x y = Inl TypeError"
  by (simp add: canMove_def)

text \<open>
  Claim C2 (passability is total and never raises; out of bounds is false, not an
  exception). The code reads \<^verbatim>\<open>dungeonGrid[newY][newX]\<close> before its bounds test:
  on the 20 by 12 all-floor room, the cell one row above the top row, \<open>(10, -1)\<close>,
  raises a TypeError instead of returning false, and so does the cell below the
  bottom row; a column out of bounds does return false.
\<close>

theorem C2_canMove_raises_out_of_rows:
  "canMove floorRoom 10 (-1) = Inl TypeError
   \<and> canMove floorRoom 10 12 = Inl TypeError
   \<and> canMove floorRoom (-1) 6 = Inr False
   \<and> canMove floorRoom 20 6 = Inr False
   \<and> canMove floorRoom 10 6 = Inr True"
  by (simp add: canMove_def floorRoom_def roomOf_def isCollidable_def
        GRID_WIDTH_def GRID_HEIGHT_def)

subsection \<open>What each phase of the update may change\<close>

text \<open>
  The movement phases write only the cosmetic velocity, the tween list and
  \<^verbatim>\<open>lastMoveTime\<close>; the key pickup and the collision resolver leave the tween list
  and \<^verbatim>\<open>lastMoveTime\<close> alone, never clear the over-state and never raise health.
\<close>

lemma windGust_Inr: "windGust g s = Inr (s1, l) \<Longrightarrow> s1 = s\<lparr>velocity := velocity s1\<rparr>"
  unfolding windGust_def
  by (auto split: option.splits if_splits sum.splits simp: Let_def)

lemma windGust_Inl: "windGust g s = Inl (e, s1) \<Longrightarrow> s1 = s"
  unfolding windGust_def
  by (auto split: option.splits if_splits sum.splits simp: Let_def)

lemma cursorMove_Inr: "cursorMove g s l = Inr (s1, l') \<Longrightarrow> s1 = s\<lparr>velocity := velocity s1\<rparr>"
  unfolding cursorMove_def
  by (auto split: prod.splits option.splits if_splits sum.splits simp: Let_def)

lemma cursorMove_Inl: "cursorMove g s l = Inl (e, s1) \<Longrightarrow> s1 = s"
  unfolding cursorMove_def
  by (auto split: prod.splits option.splits if_splits sum.splits simp: Let_def)

lemma startTween_Inr:
  "startTween g s l time = Inr s1 \<Longrightarrow>
   s1 = s \<or> (\<exists>tw. s1 = s\<lparr>tweens := tweens s @ [tw], lastMoveTime := Some time\<rparr>)"
  unfolding startTween_def
  by (auto split: prod.splits option.splits if_splits simp: Let_def)

lemma startTween_Inl: "startTween g s l time = Inl (e, s1) \<Longrightarrow> s1 = s"
  unfolding startTween_def
  by (auto split: prod.splits option.splits if_splits simp: Let_def)

lemma gridMovement_Inl:
  assumes "gridMovement g s time = Inl (e, s')"
  shows "s' = s\<lparr>velocity := velocity s'\<rparr>"
proof (cases "windGust g (s\<lparr>velocity := (0, 0)\<rparr>)")
  case (Inl err)
  with assms have "windGust g (s\<lparr>velocity := (0, 0)\<rparr>) = Inl (e, s')"
    by (simp add: gridMovement_def)
  from windGust_Inl[OF this] show ?thesis by simp
next
  case (Inr p)
  obtain s1 l1 where p: "p = (s1, l1)" by (cases p)
  from windGust_Inr[OF Inr[unfolded p]]
  have s1: "s1 = s\<lparr>velocity := velocity s1\<rparr>" by simp
  show ?thesis
  proof (cases "cursorMove g s1 l1")
    case (Inl err)
    with assms Inr p have cm: "cursorMove g s1 l1 = Inl (e, s')"
      by (simp add: gridMovement_def)
    from cursorMove_Inl[OF cm] s1 show ?thesis by simp
  next
    case cm: (Inr q)
    obtain s2 l2 where q: "q = (s2, l2)" by (cases q)
    from cursorMove_Inr[OF cm[unfolded q]] have s2: "s2 = s1\<lparr>velocity := velocity s2\<rparr>" .
    from assms Inr p cm q have "startTween g s2 l2 time = Inl (e, s')"
      by (simp add: gridMovement_def)
    from startTween_Inl[OF this] have "s' = s2" .
    with s2 have "s' = s1\<lparr>velocity := velocity s'\<rparr>" by simp
    also have "\<dots> = s\<lparr>velocity := velocity s'\<rparr>"
      by (subst s1) simp
    finally show ?thesis .
  qed
qed

lemma gridMovement_Inr:
  assumes "gridMovement g s time = Inr s'"
  shows "s' = s\<lparr>velocity := velocity s'\<rparr>
       \<or> (\<exists>tw. s' = s\<lparr>velocity := velocity s', tweens := tweens s @ [tw],
                         lastMoveTime := Some time\<rparr>)"
proof -
  from assms obtain s1 l1 where wg: "windGust g (s\<lparr>velocity := (0, 0)\<rparr>) = Inr (s1, l1)"
    by (auto simp: gridMovement_def split: sum.splits)
  from assms wg obtain s2 l2 where cm: "cursorMove g s1 l1 = Inr (s2, l2)"
    by (auto simp: gridMovement_def split: sum.splits)
  from assms wg cm have st: "startTween g s2 l2 time = Inr s'"
    by (simp add: gridMovement_def)
  from windGust_Inr[OF wg] have s1: "s1 = s\<lparr>velocity := velocity s1\<rparr>" by simp
  from cursorMove_Inr[OF cm] have "s2 = s1\<lparr>velocity := velocity s2\<rparr>" .
  also have "\<dots> = s\<lparr>velocity := velocity s2\<rparr>" by (subst s1) simp
  finally have s2: "s2 = s\<lparr>velocity := velocity s2\<rparr>" .
  from startTween_Inr[OF st] show ?thesis
  proof
    assume "s' = s2"
    with s2 show ?thesis by simp
  next
    assume "\<exists>tw. s' = s2\<lparr>tweens := tweens s2 @ [tw], lastMoveTime := Some time\<rparr>"
    then obtain tw where e: "s' = s2\<lparr>tweens := tweens s2 @ [tw], lastMoveTime := Some time\<rparr>" ..
    have t2: "tweens s2 = tweens s" by (subst s2) simp
    have v: "velocity s' = velocity s2" by (simp add: e)
    have "s' = s\<lparr>velocity := velocity s', tweens := tweens s @ [tw], lastMoveTime := Some time\<rparr>"
      unfolding v e t2 by (subst s2) simp
    then show ?thesis by blast
  qed
qed

lemma onEnemy_frame:
  "tweens (onEnemy e s) = tweens s \<and> lastMoveTime (onEnemy e s) = lastMoveTime s
   \<and> (gameOver s \<longrightarrow> gameOver (onEnemy e s))
   \<and> playerHealth (onEnemy e s) \<le> playerHealth s"
  by (simp add: onEnemy_def destroyEnemy_def endGame_def Let_def)

lemma enemiesEach_frame:
  "tweens (enemiesEach es s) = tweens s \<and> lastMoveTime (enemiesEach es s) = lastMoveTime s
   \<and> (gameOver s \<longrightarrow> gameOver (enemiesEach es s))
   \<and> playerHealth (enemiesEach es s) \<le> playerHealth s"
proof (induction es arbitrary: s)
  case Nil
  show ?case by simp
next
  case (Cons e es)
  from Cons.IH[of "onEnemy e s"] onEnemy_frame[of e s] show ?case
    by auto
qed

lemma abilityGate_frame:
  "tweens (abilityGate s) = tweens s \<and> lastMoveTime (abilityGate s) = lastMoveTime s
   \<and> gameOver (abilityGate s) = gameOver s
   \<and> playerHealth (abilityGate s) = playerHealth s"
  by (simp add: abilityGate_def JustDown_def addText_def)

lemma shieldVisual_frame:
  "tweens (shieldVisual s d) = tweens s \<and> lastMoveTime (shieldVisual s d) = lastMoveTime s
   \<and> gameOver (shieldVisual s d) = gameOver s
   \<and> playerHealth (shieldVisual s d) = playerHealth s"
  by (simp add: shieldVisual_def Let_def)

lemma keyPickup_frame:
  "tweens (keyPickup s) = tweens s \<and> lastMoveTime (keyPickup s) = lastMoveTime s
   \<and> gameOver (keyPickup s) = gameOver s
   \<and> playerHealth (keyPickup s) = playerHealth s"
  by (simp add: keyPickup_def addText_def)

lemma updateShieldAndCollisions_frame:
  "tweens (updateShieldAndCollisions s d) = tweens s
   \<and> lastMoveTime (updateShieldAndCollisions s d) = lastMoveTime s
   \<and> (gameOver s \<longrightarrow> gameOver (updateShieldAndCollisions s d))
   \<and> playerHealth (updateShieldAndCollisions s d) \<le> playerHealth s"
  using enemiesEach_frame[of "enemies (shieldVisual s d)" "shieldVisual s d"]
        shieldVisual_frame[of s d]
        abilityGate_frame[of "enemiesEach (enemies (shieldVisual s d)) (shieldVisual s d)"]
  by (simp add: updateShieldAndCollisions_def resolveCollisions_def Let_def)

lemma afterMove_frame:
  "tweens (updateShieldAndCollisions (keyPickup s) d) = tweens s
   \<and> lastMoveTime (updateShieldAndCollisions (keyPickup s) d) = lastMoveTime s
   \<and> (gameOver s \<longrightarrow> gameOver (updateShieldAndCollisions (keyPickup s) d))
   \<and> playerHealth (updateShieldAndCollisions (keyPickup s) d) \<le> playerHealth s"
  using updateShieldAndCollisions_frame[of "keyPickup s" d] keyPickup_frame[of s]
  by simp

lemma initLastMoveTime_frame:
  "tweens (initLastMoveTime s) = tweens s
   \<and> gameOver (initLastMoveTime s) = gameOver s
   \<and> playerHealth (initLastMoveTime s) = playerHealth s
   \<and> dungeonGrid (initLastMoveTime s) = dungeonGrid s"
  by (simp add: initLastMoveTime_def)

lemma gridMovement_fields:
  "gridMovement g s time = r \<Longrightarrow>
   gameOver (stateOf r) = gameOver s \<and> playerHealth (stateOf r) = playerHealth s
   \<and> (tweens (stateOf r) = tweens s
       \<or> (\<exists>tw. r = Inr (stateOf r) \<and> tweens (stateOf r) = tweens s @ [tw]
                \<and> lastMoveTime (stateOf r) = Some time))"
proof (cases r)
  case (Inl err)
  assume a: "gridMovement g s time = r"
  obtain e s' where err: "err = (e, s')" by (cases err)
  from gridMovement_Inl[OF a[unfolded Inl err]]
  have eq: "s' = s\<lparr>velocity := velocity s'\<rparr>" .
  have "gameOver s' = gameOver s" "playerHealth s' = playerHealth s" "tweens s' = tweens s"
    by (subst eq, simp)+
  then show ?thesis by (simp add: Inl err stateOf_def)
next
  case (Inr s')
  assume a: "gridMovement g s time = r"
  from gridMovement_Inr[OF a[unfolded Inr]] show ?thesis
  proof
    assume eq: "s' = s\<lparr>velocity := velocity s'\<rparr>"
    have "gameOver s' = gameOver s" "playerHealth s' = playerHealth s" "tweens s' = tweens s"
      by (subst eq, simp)+
    then show ?thesis by (simp add: Inr stateOf_def)
  next
    assume "\<exists>tw. s' = s\<lparr>velocity := velocity s', tweens := tweens s @ [tw],
                         lastMoveTime := Some time\<rparr>"
    then obtain tw where eq: "s' = s\<lparr>velocity := velocity s', tweens := tweens s @ [tw],
                         lastMoveTime := Some time\<rparr>" ..
    have "gameOver s' = gameOver s" "playerHealth s' = playerHealth s"
         "tweens s' = tweens s @ [tw]" "lastMoveTime s' = Some time"
      by (subst eq, simp)+
    then show ?thesis by (simp add: Inr stateOf_def)
  qed
qed

lemma updatePlayer_fields:
  "(gameOver s \<longrightarrow> gameOver (stateOf (updatePlayer s time delta)))
   \<and> playerHealth (stateOf (updatePlayer s time delta)) \<le> playerHealth s
   \<and> (tweens (stateOf (updatePlayer s time delta)) = tweens s
       \<or> (\<exists>tw. tweens (stateOf (updatePlayer s time delta)) = tweens s @ [tw]
                \<and> lastMoveTime (stateOf (updatePlayer s time delta)) = Some time))"
proof (cases "sinceLastMove (initLastMoveTime s) time < MOVEMENT_COOLDOWN")
  case True
  then have "updatePlayer s time delta = Inr (initLastMoveTime s)"
    by (simp add: updatePlayer_def Let_def)
  then show ?thesis by (simp add: stateOf_def initLastMoveTime_frame)
next
  case run: False
  show ?thesis
  proof (cases "dungeonGrid (initLastMoveTime s)")
    case None
    with run have "updatePlayer s time delta =
        Inr ((initLastMoveTime s)\<lparr>console := console (initLastMoveTime s)
               @ [''dungeonGrid is undefined in updatePlayer'']\<rparr>)"
      by (simp add: updatePlayer_def Let_def)
    then show ?thesis by (simp add: stateOf_def initLastMoveTime_frame)
  next
    case (Some g)
    define r where "r = gridMovement g (initLastMoveTime s) time"
    from gridMovement_fields[OF r_def[symmetric]]
    have gm: "gameOver (stateOf r) = gameOver s" "playerHealth (stateOf r) = playerHealth s"
      "tweens (stateOf r) = tweens s
       \<or> (\<exists>tw. r = Inr (stateOf r) \<and> tweens (stateOf r) = tweens s @ [tw]
                \<and> lastMoveTime (stateOf r) = Some time)"
      by (simp_all add: initLastMoveTime_frame)
    show ?thesis
    proof (cases r)
      case (Inl err)
      with run Some have "updatePlayer s time delta = Inl err"
        by (simp add: updatePlayer_def r_def Let_def)
      with gm Inl show ?thesis by auto
    next
      case (Inr s3)
      with run Some have up: "updatePlayer s time delta =
          Inr (updateShieldAndCollisions (keyPickup s3) delta)"
        by (simp add: updatePlayer_def r_def Let_def)
      have s3: "stateOf r = s3" by (simp add: Inr stateOf_def)
      from gm afterMove_frame[of s3 delta] show ?thesis
        unfolding up s3 by (auto simp: stateOf_def)
    qed
  qed
qed

lemma updatePlayer_cooldown:
  "lastMoveTime s = Some t0 \<Longrightarrow> time - t0 < 200 \<Longrightarrow> updatePlayer s time delta = Inr s"
  by (simp add: updatePlayer_def initLastMoveTime_def sinceLastMove_def MOVEMENT_COOLDOWN_def)

subsection \<open>When the update returns\<close>








subsection \<open>The enemy loop and the gate\<close>







lemma onEnemy_gate_fields:
  "xbiteJustDown (onEnemy e s) = xbiteJustDown s \<and> chargeLevel (onEnemy e s) = chargeLevel s"
  by (simp add: onEnemy_def destroyEnemy_def endGame_def Let_def)

lemma enemiesEach_gate_fields:
  "xbiteJustDown (enemiesEach es s) = xbiteJustDown s
   \<and> chargeLevel (enemiesEach es s) = chargeLevel s"
  by (induction es arbitrary: s) (simp_all add: onEnemy_gate_fields)

lemma shieldVisual_gate_fields:
  "xbiteJustDown (shieldVisual s d) = xbiteJustDown s
   \<and> chargeLevel (shieldVisual s d) = chargeLevel s"
  by (simp add: shieldVisual_def Let_def)

lemma abilityGate_cases:
  "(xbiteJustDown s \<and> chargeLevel s \<ge> 1000 \<longrightarrow>
      enemies (abilityGate s) = [] \<and> enemyProjectiles (abilityGate s) = []
      \<and> chargeLevel (abilityGate s) = 0)
   \<and> (chargeLevel s < 1000 \<longrightarrow> abilityGate s = s\<lparr>xbiteJustDown := False\<rparr>)
   \<and> (\<not> xbiteJustDown s \<longrightarrow> abilityGate s = s)
   \<and> \<not> xbiteJustDown (abilityGate s)"
  by (cases "xbiteJustDown s") (simp_all add: abilityGate_def JustDown_def addText_def)



subsection \<open>The early returns of the update\<close>




subsection \<open>Wind gust and directional input in one tick\<close>

text \<open>
  Claim C3 (every committed cell is passable). Evaluation of the code: on a wind-right
  tile with the right arrow held, the wind phase sets the destination one cell to the
  right and the input phase, having tested that same cell, adds one more: the tween
  goes to \<open>(7, 5)\<close>, a wall, its completion commits that cell, and \<open>canMove\<close> is
  false there.
\<close>

theorem C3_wind_and_input_reach_wall:
  "canMove windRoom (gridX windScene) (gridY windScene) = Inr True
   \<and> tweens (stateOf (updatePlayer windScene 1000 16))
        = [\<lparr>targetX = 336, targetY = 240, duration = 100, destX = 7, destY = 5\<rparr>]
   \<and> gridX (stateOf (onComplete (stateOf (updatePlayer windScene 1000 16))
        \<lparr>targetX = 336, targetY = 240, duration = 100, destX = 7, destY = 5\<rparr>)) = 7
   \<and> gridY (stateOf (onComplete (stateOf (updatePlayer windScene 1000 16))
        \<lparr>targetX = 336, targetY = 240, duration = 100, destX = 7, destY = 5\<rparr>)) = 5
   \<and> canMove windRoom 7 5 = Inr False"
  by (simp add: windScene_def windRoom_def restScene_def update_defs room_defs tile_defs)

text \<open>
  Claim C4 (the wind push is evaluated first and the directional input does not
  additionally alter the destination). Evaluation of the code: from \<open>(5, 5)\<close> the
  gust alone starts a tween to \<open>(6, 5)\<close>; with the up arrow held as well, the single
  tween of the tick goes to \<open>(6, 4)\<close>, the wind step and the input step added up.
\<close>

theorem C4_input_alters_wind_destination:
  "canMove gustRoom 6 5 = Inr True \<and> canMove gustRoom 5 4 = Inr True
   \<and> tweens (stateOf (updatePlayer (gustUpScene\<lparr>upIsDown := False\<rparr>) 1000 16))
        = [\<lparr>targetX = 288, targetY = 240, duration = 100, destX = 6, destY = 5\<rparr>]
   \<and> tweens (stateOf (updatePlayer gustUpScene 1000 16))
        = [\<lparr>targetX = 288, targetY = 192, duration = 100, destX = 6, destY = 4\<rparr>]"
  by (simp add: gustUpScene_def gustRoom_def restScene_def update_defs room_defs)

subsection \<open>Tile interaction and the over-state\<close>

lemma setGlyph_fields:
  "gameOver (stateOf (setGlyph s x y)) = gameOver s
   \<and> playerHealth (stateOf (setGlyph s x y)) = playerHealth s"
  by (simp add: setGlyph_def stateOf_def split: option.splits)

lemma powerUpEffect_fields:
  "gameOver (powerUpEffect k s) = gameOver s
   \<and> playerHealth (powerUpEffect k s)
       = (if k = 23 then min (playerHealth s + 25) 100 else playerHealth s)"
  by (simp add: powerUpEffect_def addText_def Let_def)

lemma removePickup_fields:
  "gameOver (removePickup s x y) = gameOver s
   \<and> playerHealth (removePickup s x y) = playerHealth s"
  by (simp add: removePickup_def split: option.splits)

lemma applyPowerUp_fields:
  "gameOver (stateOf (applyPowerUp s k x y)) = gameOver s
   \<and> (playerHealth s \<le> 100 \<longrightarrow> playerHealth (stateOf (applyPowerUp s k x y)) \<le> 100)"
proof (cases "dungeonGrid s")
  case None
  then show ?thesis by (simp add: applyPowerUp_def stateOf_def)
next
  case (Some g)
  show ?thesis
  proof (cases "g y")
    case None
    with Some show ?thesis by (simp add: applyPowerUp_def stateOf_def)
  next
    case (Some row)
    define c where "c = clearCell s g row x y"
    have c: "gameOver c = gameOver s" "playerHealth c = playerHealth s"
      by (simp_all add: c_def clearCell_def)
    show ?thesis
    proof (cases "setGlyph c x y")
      case (Inl err)
      with setGlyph_fields[of c x y] c \<open>dungeonGrid s = Some g\<close> Some show ?thesis
        by (simp add: applyPowerUp_def c_def)
    next
      case (Inr s2)
      with setGlyph_fields[of c x y] c have s2: "gameOver s2 = gameOver s"
        "playerHealth s2 = playerHealth s" by (simp_all add: stateOf_def)
      from Inr \<open>dungeonGrid s = Some g\<close> Some
      have "applyPowerUp s k x y = Inr (powerUpEffect k (removePickup s2 x y))"
        by (simp add: applyPowerUp_def c_def)
      with s2 show ?thesis
        by (simp add: stateOf_def powerUpEffect_fields removePickup_fields)
    qed
  qed
qed

lemma handleTileInteraction_hazard:
  assumes "tileAt s x y = Some 5 \<or> tileAt s x y = Some 8"
  shows "handleTileInteraction s x y
           = Inr (endGame (addText ''-20 HP!'' (s\<lparr>playerHealth := playerHealth s - 20\<rparr>)))"
  using assms
  by (auto simp: handleTileInteraction_def tileAt_def Let_def split: option.splits)

lemma handleTileInteraction_fields:
  "(gameOver s \<longrightarrow> gameOver (stateOf (handleTileInteraction s x y)))
   \<and> (playerHealth s \<le> 100 \<longrightarrow> playerHealth (stateOf (handleTileInteraction s x y)) \<le> 100)"
proof (cases "dungeonGrid s")
  case None
  then show ?thesis by (simp add: handleTileInteraction_def stateOf_def)
next
  case (Some g)
  show ?thesis
  proof (cases "g y")
    case None
    with Some show ?thesis by (simp add: handleTileInteraction_def stateOf_def)
  next
    case (Some row)
    note g = \<open>dungeonGrid s = Some g\<close>
    consider (hazard) "row x = Some 5 \<or> row x = Some 8"
      | (treasure) "row x = Some 6"
      | (powerup) t where "row x = Some t" "19 \<le> t \<and> t \<le> 23"
      | (other) "\<not> (row x = Some 5 \<or> row x = Some 8)" "row x \<noteq> Some 6" "\<not> isPowerUp (row x)"
      by (cases "row x") (auto simp: isPowerUp_def)
    then show ?thesis
    proof cases
      case hazard
      then have "tileAt s x y = Some 5 \<or> tileAt s x y = Some 8"
        using g Some by (simp add: tileAt_def)
      from handleTileInteraction_hazard[OF this] show ?thesis
        by (simp add: stateOf_def endGame_def addText_def)
    next
      case treasure
      define c where "c = clearCell (s\<lparr>score := score s + 50\<rparr>) g row x y"
      have c: "gameOver c = gameOver s" "playerHealth c = playerHealth s"
        by (simp_all add: c_def clearCell_def)
      have h: "handleTileInteraction s x y =
          (case setGlyph c x y of Inl err \<Rightarrow> Inl err | Inr s2 \<Rightarrow> Inr (addText ''+50 Score!'' s2))"
        using g Some treasure by (simp add: handleTileInteraction_def c_def)
      from setGlyph_fields[of c x y] c show ?thesis
        unfolding h by (cases "setGlyph c x y") (auto simp: stateOf_def addText_def)
    next
      case powerup
      then have "handleTileInteraction s x y = applyPowerUp s t x y"
        using g Some by (auto simp: handleTileInteraction_def isPowerUp_def)
      with applyPowerUp_fields[of s t x y] show ?thesis by simp
    next
      case other
      then have "handleTileInteraction s x y = Inr s"
        using g Some by (simp add: handleTileInteraction_def)
      then show ?thesis by (simp add: stateOf_def)
    qed
  qed
qed

lemma onComplete_fields:
  "(gameOver s \<longrightarrow> gameOver (stateOf (onComplete s tw)))
   \<and> (playerHealth s \<le> 100 \<longrightarrow> playerHealth (stateOf (onComplete s tw)) \<le> 100)"
  using handleTileInteraction_fields[of
      "s\<lparr>gridX := destX tw, gridY := destY tw,
         playerX := real_of_int (destX tw * TILE_SIZE),
         playerY := real_of_int (destY tw * TILE_SIZE)\<rparr>" "destX tw" "destY tw"]
  by (simp add: onComplete_def Let_def)

text \<open>Tile interaction and tween completion leave the cooldown and the tween list alone.\<close>

lemma setGlyph_cooldown:
  "lastMoveTime (stateOf (setGlyph s x y)) = lastMoveTime s
   \<and> tweens (stateOf (setGlyph s x y)) = tweens s"
  by (simp add: setGlyph_def stateOf_def split: option.splits)

lemma applyPowerUp_cooldown:
  "lastMoveTime (stateOf (applyPowerUp s k x y)) = lastMoveTime s
   \<and> tweens (stateOf (applyPowerUp s k x y)) = tweens s"
proof (cases "dungeonGrid s")
  case None
  then show ?thesis by (simp add: applyPowerUp_def stateOf_def)
next
  case (Some g)
  show ?thesis
  proof (cases "g y")
    case None
    with Some show ?thesis by (simp add: applyPowerUp_def stateOf_def)
  next
    case (Some row)
    define c where "c = clearCell s g row x y"
    have c: "lastMoveTime c = lastMoveTime s" "tweens c = tweens s"
      by (simp_all add: c_def clearCell_def)
    show ?thesis
    proof (cases "setGlyph c x y")
      case (Inl err)
      with setGlyph_cooldown[of c x y] c \<open>dungeonGrid s = Some g\<close> Some show ?thesis
        by (simp add: applyPowerUp_def c_def)
    next
      case (Inr s2)
      with setGlyph_cooldown[of c x y] c have s2: "lastMoveTime s2 = lastMoveTime s"
        "tweens s2 = tweens s" by (simp_all add: stateOf_def)
      from Inr \<open>dungeonGrid s = Some g\<close> Some
      have "applyPowerUp s k x y = Inr (powerUpEffect k (removePickup s2 x y))"
        by (simp add: applyPowerUp_def c_def)
      with s2 show ?thesis
        by (simp add: stateOf_def powerUpEffect_def removePickup_def addText_def Let_def
              split: option.splits)
    qed
  qed
qed

lemma handleTileInteraction_cooldown:
  "lastMoveTime (stateOf (handleTileInteraction s x y)) = lastMoveTime s
   \<and> tweens (stateOf (handleTileInteraction s x y)) = tweens s"
proof (cases "dungeonGrid s")
  case None
  then show ?thesis by (simp add: handleTileInteraction_def stateOf_def)
next
  case (Some g)
  show ?thesis
  proof (cases "g y")
    case None
    with Some show ?thesis by (simp add: handleTileInteraction_def stateOf_def)
  next
    case (Some row)
    note g = \<open>dungeonGrid s = Some g\<close>
    consider (hazard) "row x = Some 5 \<or> row x = Some 8"
      | (treasure) "row x = Some 6"
      | (powerup) t where "row x = Some t" "19 \<le> t \<and> t \<le> 23"
      | (other) "\<not> (row x = Some 5 \<or> row x = Some 8)" "row x \<noteq> Some 6" "\<not> isPowerUp (row x)"
      by (cases "row x") (auto simp: isPowerUp_def)
    then show ?thesis
    proof cases
      case hazard
      then have "tileAt s x y = Some 5 \<or> tileAt s x y = Some 8"
        using g Some by (simp add: tileAt_def)
      from handleTileInteraction_hazard[OF this] show ?thesis
        by (simp add: stateOf_def endGame_def addText_def)
    next
      case treasure
      define c where "c = clearCell (s\<lparr>score := score s + 50\<rparr>) g row x y"
      have c: "lastMoveTime c = lastMoveTime s" "tweens c = tweens s"
        by (simp_all add: c_def clearCell_def)
      have h: "handleTileInteraction s x y =
          (case setGlyph c x y of Inl err \<Rightarrow> Inl err | Inr s2 \<Rightarrow> Inr (addText ''+50 Score!'' s2))"
        using g Some treasure by (simp add: handleTileInteraction_def c_def)
      from setGlyph_cooldown[of c x y] c show ?thesis
        unfolding h by (cases "setGlyph c x y") (auto simp: stateOf_def addText_def)
    next
      case powerup
      then have "handleTileInteraction s x y = applyPowerUp s t x y"
        using g Some by (auto simp: handleTileInteraction_def isPowerUp_def)
      with applyPowerUp_cooldown[of s t x y] show ?thesis by simp
    next
      case other
      then have "handleTileInteraction s x y = Inr s"
        using g Some by (simp add: handleTileInteraction_def)
      then show ?thesis by (simp add: stateOf_def)
    qed
  qed
qed

lemma onComplete_cooldown:
  "lastMoveTime (stateOf (onComplete s tw)) = lastMoveTime s
   \<and> tweens (stateOf (onComplete s tw)) = tweens s"
  using handleTileInteraction_cooldown[of
      "s\<lparr>gridX := destX tw, gridY := destY tw,
         playerX := real_of_int (destX tw * TILE_SIZE),
         playerY := real_of_int (destY tw * TILE_SIZE)\<rparr>" "destX tw" "destY tw"]
  by (simp add: onComplete_def Let_def)

text \<open>
  Claim C5, as stated (once the over-state is set, no hazard arrival or enemy overlap
  decrements health further), fails: arriving on the spike with health 15 sets the
  over-state with health -5, arriving again gives -25; an update of a scene that is
  over, with an enemy on the player, takes 10 more; and when the enemy takes the last
  health in the frame that starts the move to the spike, the completion of that move
  still takes 20.
\<close>

theorem C5_damage_after_over_state:
  "gameOver (stateOf (onComplete hazardScene toHazard))
   \<and> playerHealth (stateOf (onComplete hazardScene toHazard)) = -5
   \<and> playerHealth (stateOf (onComplete (stateOf (onComplete hazardScene toHazard)) toHazard)) = -25
   \<and> gameOver defeatedScene \<and> playerHealth defeatedScene = 0
   \<and> playerHealth (stateOf (updatePlayer defeatedScene 1000 16)) = -10
   \<and> tweens (stateOf (updatePlayer lastStandScene 1000 16)) = [toHazard]
   \<and> gameOver (stateOf (updatePlayer lastStandScene 1000 16))
   \<and> playerHealth (stateOf (updatePlayer lastStandScene 1000 16)) = 0
   \<and> playerHealth (stateOf (onComplete (stateOf (updatePlayer lastStandScene 1000 16)) toHazard))
       = -20"
  by (simp add: hazardScene_def hazardRoom_def toHazard_def defeatedScene_def lastStandScene_def
        restScene_def update_defs room_defs tile_defs)

text \<open>
  Claim C5, amended: the over-state, once set, stays set through every update call,
  tween completion and tile interaction of the core (whether they return or throw);
  the core itself has no over-state check, so a hazard arrival still subtracts 20 and
  an unshielded enemy overlap still subtracts 10.
\<close>

theorem C5_over_state_persists:
  assumes "gameOver s"
  shows "gameOver (stateOf (updatePlayer s t d))
       \<and> gameOver (stateOf (onComplete s tw))
       \<and> gameOver (stateOf (handleTileInteraction s x y))
       \<and> (tileAt s x y = Some 5 \<or> tileAt s x y = Some 8 \<longrightarrow>
            playerHealth (stateOf (handleTileInteraction s x y)) = playerHealth s - 20)
       \<and> (active e \<and> touching e \<and> \<not> shieldHP s > 0 \<longrightarrow>
            playerHealth (onEnemy e s) = playerHealth s - 10 \<and> gameOver (onEnemy e s))"
proof -
  have "playerHealth (stateOf (handleTileInteraction s x y)) = playerHealth s - 20"
    if "tileAt s x y = Some 5 \<or> tileAt s x y = Some 8"
    using handleTileInteraction_hazard[OF that]
    by (simp add: stateOf_def endGame_def addText_def)
  moreover have "playerHealth (onEnemy e s) = playerHealth s - 10 \<and> gameOver (onEnemy e s)"
    if "active e \<and> touching e \<and> \<not> shieldHP s > 0"
    using that assms by (simp add: onEnemy_def destroyEnemy_def endGame_def)
  ultimately show ?thesis
    using assms updatePlayer_fields[of s t d] onComplete_fields[of s tw]
      handleTileInteraction_fields[of s x y]
    by blast
qed

theorem C5_over_state_persists_witness:
  "gameOver defeatedScene
   \<and> gameOver (stateOf (updatePlayer defeatedScene 1000 16))
   \<and> gameOver (stateOf (onComplete defeatedScene toHazard))
   \<and> tileAt defeatedScene 11 6 = Some 5
   \<and> playerHealth (stateOf (handleTileInteraction defeatedScene 11 6)) = -20
   \<and> playerHealth (onEnemy \<lparr>eid = 1, active = True, touching = True\<rparr> defeatedScene) = -10"
proof -
  have a: "gameOver defeatedScene" by (simp add: defeatedScene_def)
  have b: "tileAt defeatedScene 11 6 = Some 5"
    by (simp add: tileAt_def defeatedScene_def hazardRoom_def room_defs)
  have c: "active \<lparr>eid = 1, active = True, touching = True\<rparr>
           \<and> touching \<lparr>eid = 1, active = True, touching = True\<rparr>
           \<and> \<not> shieldHP defeatedScene > 0"
    by (simp add: defeatedScene_def restScene_def)
  have h: "playerHealth defeatedScene = 0" by (simp add: defeatedScene_def)
  from C5_over_state_persists[OF a, of 1000 16 toHazard 11 6
      "\<lparr>eid = 1, active = True, touching = True\<rparr>"] a b c h
  show ?thesis by simp
qed

subsection \<open>Movement cooldown\<close>

text \<open>
  Claim C6 (two update calls less than 200 ms apart initiate at most one transition).
  Take an update at time \<open>t1\<close> on any scene \<open>s\<close>, then an update at time \<open>t2\<close> with
  \<open>t2 - t1 < 200\<close> on any scene \<open>s1'\<close> that has the \<^verbatim>\<open>lastMoveTime\<close> and the tween
  list the first call left (the inputs, the positions and everything else may have
  changed in between, and a tween may have completed, which changes neither): the
  tweens added by the two calls together are at most one.
  \<^verbatim>\<open>lastMoveTime\<close> is set to \<open>t1\<close> in the call that adds a tween, and a call inside
  the cooldown returns at line 67. The scene after a call is taken whether the call
  returned or threw.
\<close>

theorem C6_cooldown_one_transition:
  assumes "t2 - t1 < 200"
    and "lastMoveTime s1' = lastMoveTime (stateOf (updatePlayer s t1 d1))"
    and "tweens s1' = tweens (stateOf (updatePlayer s t1 d1))"
  shows "\<exists>ws. tweens (stateOf (updatePlayer s1' t2 d2)) = tweens s @ ws \<and> length ws \<le> 1"
proof -
  define s1 where "s1 = stateOf (updatePlayer s t1 d1)"
  define s2 where "s2 = stateOf (updatePlayer s1' t2 d2)"
  from updatePlayer_fields[of s t1 d1]
  have "tweens s1 = tweens s
       \<or> (\<exists>tw. tweens s1 = tweens s @ [tw] \<and> lastMoveTime s1 = Some t1)"
    by (simp add: s1_def)
  then have "\<exists>ws. tweens s2 = tweens s @ ws \<and> length ws \<le> 1"
  proof
    assume same: "tweens s1 = tweens s"
    from updatePlayer_fields[of s1' t2 d2]
    have "tweens s2 = tweens s1' \<or> (\<exists>tw. tweens s2 = tweens s1' @ [tw])"
      by (auto simp: s2_def)
    with same assms(3) show ?thesis by (auto simp: s1_def)
  next
    assume "\<exists>tw. tweens s1 = tweens s @ [tw] \<and> lastMoveTime s1 = Some t1"
    then obtain tw where tw: "tweens s1 = tweens s @ [tw]" and l: "lastMoveTime s1 = Some t1"
      by blast
    from l assms(2) have l': "lastMoveTime s1' = Some t1" by (simp add: s1_def)
    from updatePlayer_cooldown[OF l' assms(1)] have "s2 = s1'"
      by (simp add: s2_def stateOf_def)
    with tw assms(3) show ?thesis by (simp add: s1_def)
  qed
  then show ?thesis by (simp add: s2_def)
qed

theorem C6_cooldown_one_transition_witness:
  "(1100::real) - 1000 < 200
   \<and> tweens (stateOf (updatePlayer rightHeldScene 1000 16))
       = [\<lparr>targetX = 528, targetY = 288, duration = 100, destX = 11, destY = 6\<rparr>]
   \<and> (\<exists>ws. tweens (stateOf (updatePlayer
               ((stateOf (onComplete (stateOf (updatePlayer rightHeldScene 1000 16))
                    \<lparr>targetX = 528, targetY = 288, duration = 100, destX = 11, destY = 6\<rparr>))
                  \<lparr>rightIsDown := False, upIsDown := True\<rparr>) 1100 16))
              = tweens rightHeldScene @ ws \<and> length ws \<le> 1)"
proof -
  define s1 where "s1 = stateOf (updatePlayer rightHeldScene 1000 16)"
  define tw where "tw = \<lparr>targetX = 528, targetY = 288, duration = 100, destX = 11, destY = 6\<rparr>"
  define s1' where "s1' = (stateOf (onComplete s1 tw))\<lparr>rightIsDown := False, upIsDown := True\<rparr>"
  have e: "tweens s1 = [tw]"
    by (simp add: s1_def tw_def rightHeldScene_def restScene_def update_defs room_defs)
  have k: "lastMoveTime s1' = lastMoveTime s1" "tweens s1' = tweens s1"
    using onComplete_cooldown[of s1 tw] by (simp_all add: s1'_def)
  have c: "(1100::real) - 1000 < 200" by simp
  from C6_cooldown_one_transition[OF c k[unfolded s1_def], of 16] e c
  show ?thesis by (simp add: s1_def s1'_def tw_def)
qed

subsection \<open>Health bounds\<close>

text \<open>
  Claim C9, as stated (health stays within 0 to 100 under every operation), fails at
  the lower bound: the spec's own scenario, health 15 on a spike, stores -5, and an
  enemy overlap at health 5 stores -5.
\<close>

theorem C9_health_below_zero:
  "playerHealth hazardScene = 15
   \<and> playerHealth (stateOf (handleTileInteraction hazardScene 11 6)) = -5
   \<and> playerHealth (onEnemy \<lparr>eid = 1, active = True, touching = True\<rparr>
                       (restScene\<lparr>playerHealth := 5\<rparr>)) = -5"
  by (simp add: hazardScene_def hazardRoom_def restScene_def room_defs tile_defs onEnemy_def
       destroyEnemy_def)

text \<open>
  Claim C9, amended: health never exceeds 100 under any operation of the core (given
  it does not before): the heal power-up adds 25 clamped at 100. Damage is not clamped
  at 0: a hazard subtracts exactly 20 and an unshielded enemy overlap exactly 10, the
  stored value may become negative, and whenever the result is at most 0 the
  over-state is set.
\<close>

theorem C9_health_bounds:
  assumes "playerHealth s \<le> 100"
  shows "playerHealth (stateOf (updatePlayer s t d)) \<le> 100
       \<and> playerHealth (stateOf (onComplete s tw)) \<le> 100
       \<and> playerHealth (stateOf (handleTileInteraction s x y)) \<le> 100
       \<and> playerHealth (stateOf (applyPowerUp s k x y)) \<le> 100
       \<and> playerHealth (powerUpEffect 23 s) = min (playerHealth s + 25) 100
       \<and> (tileAt s x y = Some 5 \<or> tileAt s x y = Some 8 \<longrightarrow>
            playerHealth (stateOf (handleTileInteraction s x y)) = playerHealth s - 20
            \<and> (playerHealth s - 20 \<le> 0 \<longrightarrow> gameOver (stateOf (handleTileInteraction s x y))))
       \<and> (active e \<and> touching e \<and> \<not> shieldHP s > 0 \<longrightarrow>
            playerHealth (onEnemy e s) = playerHealth s - 10
            \<and> (playerHealth s - 10 \<le> 0 \<longrightarrow> gameOver (onEnemy e s)))"
proof -
  have hz: "playerHealth (stateOf (handleTileInteraction s x y)) = playerHealth s - 20
            \<and> (playerHealth s - 20 \<le> 0 \<longrightarrow> gameOver (stateOf (handleTileInteraction s x y)))"
    if "tileAt s x y = Some 5 \<or> tileAt s x y = Some 8"
    using handleTileInteraction_hazard[OF that]
    by (simp add: stateOf_def endGame_def addText_def)
  have en: "playerHealth (onEnemy e s) = playerHealth s - 10
            \<and> (playerHealth s - 10 \<le> 0 \<longrightarrow> gameOver (onEnemy e s))"
    if "active e \<and> touching e \<and> \<not> shieldHP s > 0"
    using that by (simp add: onEnemy_def destroyEnemy_def endGame_def)
  have up: "playerHealth (stateOf (updatePlayer s t d)) \<le> 100"
    using updatePlayer_fields[of s t d] assms by linarith
  have heal: "playerHealth (powerUpEffect 23 s) = min (playerHealth s + 25) 100"
    by (simp add: powerUpEffect_fields)
  from up heal hz en assms onComplete_fields[of s tw] handleTileInteraction_fields[of s x y]
    applyPowerUp_fields[of s k x y]
  show ?thesis by blast
qed

theorem C9_health_bounds_witness:
  "playerHealth healScene \<le> 100
   \<and> playerHealth (stateOf (updatePlayer healScene 1000 16)) \<le> 100
   \<and> playerHealth (stateOf (onComplete healScene toHazard)) \<le> 100
   \<and> playerHealth (stateOf (onComplete healScene toHazard)) = 100
   \<and> playerHealth (powerUpEffect 23 healScene) = 100
   \<and> tileAt hazardScene 11 6 = Some 5
   \<and> playerHealth (stateOf (handleTileInteraction hazardScene 11 6)) = -5
   \<and> gameOver (stateOf (handleTileInteraction hazardScene 11 6))
   \<and> playerHealth (onEnemy \<lparr>eid = 1, active = True, touching = True\<rparr> hazardScene) = 5"
proof -
  have a: "playerHealth healScene \<le> 100" by (simp add: healScene_def)
  have a': "playerHealth hazardScene \<le> 100" by (simp add: hazardScene_def)
  have b: "tileAt hazardScene 11 6 = Some 5"
    by (simp add: tileAt_def hazardScene_def hazardRoom_def room_defs)
  have c: "active \<lparr>eid = 1, active = True, touching = True\<rparr>
           \<and> touching \<lparr>eid = 1, active = True, touching = True\<rparr>
           \<and> \<not> shieldHP hazardScene > 0"
    by (simp add: hazardScene_def restScene_def)
  have h: "playerHealth healScene = 90" "playerHealth hazardScene = 15"
    by (simp_all add: healScene_def hazardScene_def)
  have e: "playerHealth (stateOf (onComplete healScene toHazard)) = 100"
    by (simp add: healScene_def healRoom_def toHazard_def restScene_def room_defs tile_defs)
  from C9_health_bounds[OF a, of 1000 16 toHazard 11 6 23
      "\<lparr>eid = 1, active = True, touching = True\<rparr>"]
    C9_health_bounds[OF a', of 1000 16 toHazard 11 6 23
      "\<lparr>eid = 1, active = True, touching = True\<rparr>"] a b c h e
  show ?thesis by simp
qed

subsection \<open>Power-up overwrite\<close>

lemma powerUpEffect_cellPresent:
  "cellPresent (powerUpEffect k s) x y = cellPresent s x y"
  by (simp add: powerUpEffect_def cellPresent_def rowPresent_def addText_def Let_def)

lemma removePickup_cellPresent:
  "cellPresent (removePickup s a b) x y = cellPresent s x y"
  by (simp add: removePickup_def cellPresent_def rowPresent_def split: option.splits)

lemma applyPowerUp_returns:
  assumes "cellPresent s x y"
  shows "\<exists>s2. setGlyph (clearCell s g row x y) x y = Inr s2 \<and>
      (dungeonGrid s = Some g \<longrightarrow> g y = Some row \<longrightarrow>
         applyPowerUp s k x y = Inr (powerUpEffect k (removePickup s2 x y)))
      \<and> (\<forall>x' y'. dungeonGrid s = Some g \<longrightarrow> cellPresent s x' y' \<longrightarrow> cellPresent s2 x' y')"
  using assms
  by (auto simp: applyPowerUp_def setGlyph_def clearCell_def cellPresent_def rowPresent_def
      split: option.splits)

lemma powerUpEffect_value:
  "(k = 19 \<longrightarrow> shieldHP (powerUpEffect k s) = 3)
   \<and> (k = 20 \<longrightarrow> tripleShotTimer (powerUpEffect k s) = 30000)
   \<and> (k = 21 \<longrightarrow> speedBoostTimer (powerUpEffect k s) = 30000)
   \<and> (k = 22 \<longrightarrow> slowShotTimer (powerUpEffect k s) = 30000)"
  by (simp add: powerUpEffect_def Let_def)

lemma applyPowerUp_present:
  assumes "cellPresent s x y"
  shows "\<exists>s1. applyPowerUp s k x y = Inr s1
          \<and> (\<forall>x' y'. cellPresent s x' y' \<longrightarrow> cellPresent s1 x' y')
          \<and> (k = 19 \<longrightarrow> shieldHP s1 = 3)
          \<and> (k = 20 \<longrightarrow> tripleShotTimer s1 = 30000)
          \<and> (k = 21 \<longrightarrow> speedBoostTimer s1 = 30000)
          \<and> (k = 22 \<longrightarrow> slowShotTimer s1 = 30000)"
proof -
  from assms obtain g row where g: "dungeonGrid s = Some g" and row: "g y = Some row"
    by (auto simp: cellPresent_def rowPresent_def split: option.splits)
  from applyPowerUp_returns[OF assms, of g row k] g row
  obtain s2 where s2: "applyPowerUp s k x y = Inr (powerUpEffect k (removePickup s2 x y))"
    and keep: "\<forall>x' y'. cellPresent s x' y' \<longrightarrow> cellPresent s2 x' y'"
    by blast
  show ?thesis
    using s2 keep powerUpEffect_value[of k "removePickup s2 x y"]
    by (simp add: powerUpEffect_cellPresent removePickup_cellPresent)
qed

text \<open>
  Claim C7 (applying the same power-up kind twice leaves its timer or charge at the
  single-application value). For two cells present in the grid and the overlay, both
  applications return, and after each of them the shield charge is 3 (kind 19), or the
  triple-shot (20), speed-boost (21), slow-shot (22) timer is 30000.
\<close>

theorem C7_powerup_overwrite:
  assumes "cellPresent s x y" and "cellPresent s x' y'"
  shows "\<exists>s1 s2. applyPowerUp s k x y = Inr s1 \<and> applyPowerUp s1 k x' y' = Inr s2
          \<and> (k = 19 \<longrightarrow> shieldHP s1 = 3 \<and> shieldHP s2 = 3)
          \<and> (k = 20 \<longrightarrow> tripleShotTimer s1 = 30000 \<and> tripleShotTimer s2 = 30000)
          \<and> (k = 21 \<longrightarrow> speedBoostTimer s1 = 30000 \<and> speedBoostTimer s2 = 30000)
          \<and> (k = 22 \<longrightarrow> slowShotTimer s1 = 30000 \<and> slowShotTimer s2 = 30000)"
proof -
  from applyPowerUp_present[OF assms(1), of k] obtain s1 where
    s1: "applyPowerUp s k x y = Inr s1" and
    keep: "\<forall>x' y'. cellPresent s x' y' \<longrightarrow> cellPresent s1 x' y'" and
    v1: "k = 19 \<longrightarrow> shieldHP s1 = 3" "k = 20 \<longrightarrow> tripleShotTimer s1 = 30000"
        "k = 21 \<longrightarrow> speedBoostTimer s1 = 30000" "k = 22 \<longrightarrow> slowShotTimer s1 = 30000"
    by blast
  from keep assms(2) have "cellPresent s1 x' y'" by blast
  from applyPowerUp_present[OF this, of k] obtain s2 where
    s2: "applyPowerUp s1 k x' y' = Inr s2" and
    v2: "k = 19 \<longrightarrow> shieldHP s2 = 3" "k = 20 \<longrightarrow> tripleShotTimer s2 = 30000"
        "k = 21 \<longrightarrow> speedBoostTimer s2 = 30000" "k = 22 \<longrightarrow> slowShotTimer s2 = 30000"
    by blast
  from s1 s2 v1 v2 show ?thesis by blast
qed

theorem C7_powerup_overwrite_witness:
  "cellPresent restScene 11 6 \<and> cellPresent restScene 3 4
   \<and> (\<exists>s1 s2. applyPowerUp restScene 19 11 6 = Inr s1 \<and> applyPowerUp s1 19 3 4 = Inr s2
          \<and> shieldHP s1 = 3 \<and> shieldHP s2 = 3)
   \<and> (\<exists>s1 s2. applyPowerUp restScene 20 11 6 = Inr s1 \<and> applyPowerUp s1 20 3 4 = Inr s2
          \<and> tripleShotTimer s1 = 30000 \<and> tripleShotTimer s2 = 30000)
   \<and> (\<exists>s1 s2. applyPowerUp restScene 21 11 6 = Inr s1 \<and> applyPowerUp s1 21 3 4 = Inr s2
          \<and> speedBoostTimer s1 = 30000 \<and> speedBoostTimer s2 = 30000)
   \<and> (\<exists>s1 s2. applyPowerUp restScene 22 11 6 = Inr s1 \<and> applyPowerUp s1 22 3 4 = Inr s2
          \<and> slowShotTimer s1 = 30000 \<and> slowShotTimer s2 = 30000)"
proof -
  have a: "cellPresent restScene 11 6" and b: "cellPresent restScene 3 4"
    by (simp_all add: cellPresent_def rowPresent_def restScene_def floorRoom_def roomOf_def floorTexts_def
          GRID_WIDTH_def GRID_HEIGHT_def)
  show ?thesis
    using a b C7_powerup_overwrite[OF a b, of 19] C7_powerup_overwrite[OF a b, of 20]
      C7_powerup_overwrite[OF a b, of 21] C7_powerup_overwrite[OF a b, of 22]
    by simp
qed

subsection \<open>Shield absorption\<close>










subsection \<open>Ability gate\<close>

text \<open>
  Claim C10 (on a just-pressed edge, a charge of at least 1000 clears enemies and
  projectiles and resets the charge; below 1000 the press changes nothing; once per
  press). In \<open>updateShieldAndCollisions\<close>: with the edge and charge at least 1000,
  enemies and projectiles are empty and the charge is 0 afterwards; with charge below
  1000 the gate only consumes the edge, the scene being otherwise as the collision
  loop left it; with no edge the gate changes nothing; and the edge is always
  consumed, so the next frame fires only on a new press.
\<close>

theorem C10_ability_gate:
  "(xbiteJustDown s \<and> chargeLevel s \<ge> 1000 \<longrightarrow>
      enemies (updateShieldAndCollisions s d) = []
      \<and> enemyProjectiles (updateShieldAndCollisions s d) = []
      \<and> chargeLevel (updateShieldAndCollisions s d) = 0)
   \<and> (chargeLevel s < 1000 \<longrightarrow>
      abilityGate s = s\<lparr>xbiteJustDown := False\<rparr>
      \<and> updateShieldAndCollisions s d = (resolveCollisions s d)\<lparr>xbiteJustDown := False\<rparr>)
   \<and> (\<not> xbiteJustDown s \<longrightarrow>
      abilityGate s = s \<and> updateShieldAndCollisions s d = resolveCollisions s d)
   \<and> \<not> xbiteJustDown (updateShieldAndCollisions s d)"
proof -
  define s2 where "s2 = resolveCollisions s d"
  have u: "updateShieldAndCollisions s d = abilityGate s2"
    by (simp add: updateShieldAndCollisions_def resolveCollisions_def s2_def Let_def)
  have f: "xbiteJustDown s2 = xbiteJustDown s" "chargeLevel s2 = chargeLevel s"
    by (simp_all add: s2_def resolveCollisions_def Let_def
          enemiesEach_gate_fields shieldVisual_gate_fields)
  note g2 = abilityGate_cases[of s2, unfolded f]
  note g = abilityGate_cases[of s]
  show ?thesis
    unfolding u s2_def[symmetric]
  proof (intro conjI impI)
    assume a: "xbiteJustDown s \<and> 1000 \<le> chargeLevel s"
    with g2 show "enemies (abilityGate s2) = []" "enemyProjectiles (abilityGate s2) = []"
      "chargeLevel (abilityGate s2) = 0" by (simp_all only: simp_thms)
  next
    assume lt: "chargeLevel s < 1000"
    with g show "abilityGate s = s\<lparr>xbiteJustDown := False\<rparr>" by (simp only: simp_thms)
    from lt g2 show "abilityGate s2 = s2\<lparr>xbiteJustDown := False\<rparr>" by (simp only: simp_thms)
  next
    assume n: "\<not> xbiteJustDown s"
    with g show "abilityGate s = s" by (simp only: simp_thms)
    from n g2 show "abilityGate s2 = s2" by (simp only: simp_thms)
  next
    from g2 show "\<not> xbiteJustDown (abilityGate s2)" by (simp only: simp_thms)
  qed
qed

theorem C10_ability_gate_witness:
  "xbiteJustDown chargedScene \<and> chargeLevel chargedScene \<ge> 1000
   \<and> enemies (updateShieldAndCollisions chargedScene 16) = []
   \<and> enemyProjectiles (updateShieldAndCollisions chargedScene 16) = []
   \<and> chargeLevel (updateShieldAndCollisions chargedScene 16) = 0
   \<and> chargeLevel (chargedScene\<lparr>chargeLevel := 999\<rparr>) < 1000
   \<and> abilityGate (chargedScene\<lparr>chargeLevel := 999\<rparr>)
        = chargedScene\<lparr>chargeLevel := 999, xbiteJustDown := False\<rparr>
   \<and> \<not> xbiteJustDown restScene \<and> abilityGate restScene = restScene"
proof -
  have a: "xbiteJustDown chargedScene \<and> chargeLevel chargedScene \<ge> 1000"
    by (simp add: chargedScene_def restScene_def)
  have b: "chargeLevel (chargedScene\<lparr>chargeLevel := 999\<rparr>) < 1000" by simp
  have c: "\<not> xbiteJustDown restScene" by (simp add: restScene_def)
  note full = C10_ability_gate[of chargedScene 16, THEN conjunct1, rule_format, OF a]
  note low = C10_ability_gate[of "chargedScene\<lparr>chargeLevel := 999\<rparr>" 16,
      THEN conjunct2, THEN conjunct1, rule_format, OF b, THEN conjunct1]
  note idle = C10_ability_gate[of restScene 16, THEN conjunct2, THEN conjunct2,
      THEN conjunct1, rule_format, OF c, THEN conjunct1]
  have low': "abilityGate (chargedScene\<lparr>chargeLevel := 999\<rparr>)
        = chargedScene\<lparr>chargeLevel := 999, xbiteJustDown := False\<rparr>"
    using low .
  from a full b low' c idle show ?thesis by (simp only: simp_thms)
qed

end
